theory Spec2Isabelle
  imports Main "HOL-Library.AList"
begin

section \<open>Micro-batch bookkeeping of the pipeline inference engine\<close>

text \<open>
  A shallow embedding of \<^verbatim>\<open>colossalai/inference/engine/microbatch_manager.py\<close>.
  Python integers are \<^typ>\<open>int\<close>. A method that mutates \<^verbatim>\<open>self\<close> takes the object
  and returns the object after the call. A Python exception is a value: every function
  that can raise returns \<open>error + 'a\<close>, with \<open>Inl\<close> the exception. An \<open>Inl\<close> result stands
  for the raise alone; the object the caller still holds is then as the statements before
  the raise left it.
\<close>

subsection \<open>Exceptions and tensors\<close>

datatype error =
    TypeError
  | KeyError
  | AttributeError
  | AssertionError
  | IndexError
  | RuntimeError
  | ZeroDivisionError
  | ExternalError

text \<open>
  A two-dimensional integer tensor is the list of its rows. Rows of one tensor have the
  same length in PyTorch; the functions below read the first row where PyTorch reads the
  size of the last axis. The list \<open>[]\<close> is the tensor without rows.
\<close>

type_synonym tensor = "int list list"

definition shape_last :: "tensor \<Rightarrow> int" where
  \<comment> \<open>\<^verbatim>\<open>t.shape[-1]\<close>\<close>
  "shape_last t = (case t of [] \<Rightarrow> 0 | r # _ \<Rightarrow> int (length r))"

definition len_row0 :: "tensor \<Rightarrow> error + int" where
  \<comment> \<open>\<^verbatim>\<open>len(t[0])\<close>: indexing a tensor without rows raises\<close>
  "len_row0 t = (case t of [] \<Rightarrow> Inl IndexError | r # _ \<Rightarrow> Inr (int (length r)))"

definition ones :: "nat \<Rightarrow> nat \<Rightarrow> tensor" where
  \<comment> \<open>\<^verbatim>\<open>torch.ones((n, m), dtype=torch.int64)\<close>\<close>
  "ones n m = replicate n (replicate m 1)"

definition cat_last :: "tensor \<Rightarrow> tensor \<Rightarrow> error + tensor" where
  \<comment> \<open>\<^verbatim>\<open>torch.cat([a, b], dim=-1)\<close>: the row counts must agree\<close>
  "cat_last a b =
     (if length a = length b then Inr (map2 (@) a b) else Inl RuntimeError)"

subsection \<open>Status\<close>

datatype Status = PREFILL | GENERATE | DONE | COOLDOWN

subsection \<open>The input dictionary and the external batch state\<close>

text \<open>
  \<^verbatim>\<open>inputs_dict\<close> is a dictionary from strings to tensors, or \<^verbatim>\<open>None\<close>; a key may be
  bound to \<^verbatim>\<open>None\<close> (the constructor of the first stage tests for it).
\<close>

type_synonym inputs = "(string \<rightharpoonup> tensor option) option"

definition getitem :: "inputs \<Rightarrow> string \<Rightarrow> error + tensor option" where
  \<comment> \<open>\<^verbatim>\<open>inputs_dict[k]\<close>\<close>
  "getitem d k =
     (case d of
        None \<Rightarrow> Inl TypeError
      | Some m \<Rightarrow> (case m k of None \<Rightarrow> Inl KeyError | Some v \<Rightarrow> Inr v))"

definition dict_get :: "(string \<rightharpoonup> tensor option) \<Rightarrow> string \<Rightarrow> tensor option" where
  \<comment> \<open>\<^verbatim>\<open>inputs_dict.get(k)\<close>: \<^verbatim>\<open>None\<close> for a missing key and for a key bound to \<^verbatim>\<open>None\<close>\<close>
  "dict_get m k = (case m k of None \<Rightarrow> None | Some v \<Rightarrow> v)"

text \<open>
  Modelled from the spec: \<^verbatim>\<open>BatchInferState\<close> is declared in the package \<^verbatim>\<open>kv_cache\<close>, which
  is not part of the source at hand. The spec asks of it a queryable maximum recorded
  sequence length across rows; the source reads \<^verbatim>\<open>infer_state.seq_len.max().item()\<close>. Only
  the attribute \<^verbatim>\<open>seq_len\<close>, the recorded length of every row, is represented.
  \<^verbatim>\<open>BatchInferState.init_from_batch\<close> is a parameter of every function that calls it; it may
  raise. The cache manager is an opaque value of type \<open>'cm\<close>.
\<close>

record BatchInferState =
  seq_len :: "int list"

type_synonym 'cm init_from_batch =
  "inputs \<Rightarrow> int \<Rightarrow> int \<Rightarrow> 'cm \<Rightarrow> error + BatchInferState"

definition tensor_max :: "int list \<Rightarrow> error + int" where
  \<comment> \<open>\<^verbatim>\<open>t.max().item()\<close>: the maximum of a tensor without elements raises\<close>
  "tensor_max xs = (case xs of [] \<Rightarrow> Inl RuntimeError | x # ys \<Rightarrow> Inr (fold max ys x))"

subsection \<open>MicroBatchDescription and its two subclasses\<close>

record MicroBatchDescription =
  mb_length :: int
  target_length :: int
  infer_state :: BatchInferState

record HeadMicroBatchDescription = MicroBatchDescription +
  input_ids :: tensor
  attn_mask :: tensor
  new_tokens :: "tensor option"

text \<open>\<^verbatim>\<open>BodyMicroBatchDescription\<close> adds no attribute to its base class.\<close>

type_synonym BodyMicroBatchDescription = MicroBatchDescription

datatype description =
    Head HeadMicroBatchDescription
  | Body BodyMicroBatchDescription

definition MicroBatchDescription_init ::
  "'cm init_from_batch \<Rightarrow> inputs \<Rightarrow> int \<Rightarrow> int \<Rightarrow> 'cm \<Rightarrow> error + MicroBatchDescription" where
  "MicroBatchDescription_init ifb inputs_dict mil mol cm =
     (case getitem inputs_dict ''input_ids'' of
        Inl e \<Rightarrow> Inl e
      | Inr None \<Rightarrow> Inl AttributeError
      | Inr (Some ids) \<Rightarrow>
          (case ifb inputs_dict mil mol cm of
             Inl e \<Rightarrow> Inl e
           | Inr st \<Rightarrow>
               Inr \<lparr> mb_length = shape_last ids,
                     target_length = shape_last ids + mol,
                     infer_state = st \<rparr>))"

definition state_from :: "int \<Rightarrow> int \<Rightarrow> Status" where
  \<comment> \<open>the body of the property \<^verbatim>\<open>state\<close>, given the value of \<^verbatim>\<open>self.cur_length\<close>\<close>
  "state_from cur target =
     (if cur = target then DONE
      else if cur = target - 1 then COOLDOWN
      else GENERATE)"

definition HeadMicroBatchDescription_init ::
  "'cm init_from_batch \<Rightarrow> inputs \<Rightarrow> int \<Rightarrow> int \<Rightarrow> 'cm \<Rightarrow> error + HeadMicroBatchDescription" where
  "HeadMicroBatchDescription_init ifb inputs_dict mil mol cm =
     (case MicroBatchDescription_init ifb inputs_dict mil mol cm of
        Inl e \<Rightarrow> Inl e
      | Inr base \<Rightarrow>
          (case inputs_dict of
             None \<Rightarrow> Inl AssertionError
           | Some m \<Rightarrow>
               (case (dict_get m ''input_ids'', dict_get m ''attention_mask'') of
                  (Some ids, Some am) \<Rightarrow>
                    Inr \<lparr> mb_length = mb_length base,
                          target_length = target_length base,
                          infer_state = infer_state base,
                          input_ids = ids,
                          attn_mask = am,
                          new_tokens = None \<rparr>
                | _ \<Rightarrow> Inl AssertionError)))"

definition Head_cur_length :: "HeadMicroBatchDescription \<Rightarrow> error + int" where
  "Head_cur_length self =
     (case new_tokens self of
        None \<Rightarrow> Inr (mb_length self)
      | Some t \<Rightarrow>
          (case len_row0 t of Inl e \<Rightarrow> Inl e | Inr n \<Rightarrow> Inr (mb_length self + n)))"

definition Head_state :: "HeadMicroBatchDescription \<Rightarrow> error + Status" where
  "Head_state self =
     (case Head_cur_length self of
        Inl e \<Rightarrow> Inl e
      | Inr cur \<Rightarrow> Inr (state_from cur (target_length self)))"

definition update_newtokens ::
  "HeadMicroBatchDescription \<Rightarrow> tensor \<Rightarrow> error + HeadMicroBatchDescription" where
  "update_newtokens self new_token =
     (case new_tokens self of
        None \<Rightarrow> Inr (self\<lparr>new_tokens := Some new_token\<rparr>)
      | Some old \<Rightarrow>
          (case cat_last old new_token of
             Inl e \<Rightarrow> Inl e
           | Inr t \<Rightarrow> Inr (self\<lparr>new_tokens := Some t\<rparr>)))"

definition update_attnmask :: "HeadMicroBatchDescription \<Rightarrow> error + HeadMicroBatchDescription" where
  "update_attnmask self =
     (case cat_last (attn_mask self) (ones (length (attn_mask self)) 1) of
        Inl e \<Rightarrow> Inl e
      | Inr t \<Rightarrow> Inr (self\<lparr>attn_mask := t\<rparr>))"

definition Head_update ::
  "HeadMicroBatchDescription \<Rightarrow> tensor option \<Rightarrow> error + HeadMicroBatchDescription" where
  "Head_update self new_token =
     (case (case new_token of None \<Rightarrow> Inr self | Some t \<Rightarrow> update_newtokens self t) of
        Inl e \<Rightarrow> Inl e
      | Inr self1 \<Rightarrow>
          (case Head_state self1 of
             Inl e \<Rightarrow> Inl e
           | Inr s \<Rightarrow>
               if s \<noteq> DONE \<and> new_token \<noteq> None then update_attnmask self1
               else Inr self1))"

definition BodyMicroBatchDescription_init ::
  "'cm init_from_batch \<Rightarrow> inputs \<Rightarrow> int \<Rightarrow> int \<Rightarrow> 'cm \<Rightarrow> error + BodyMicroBatchDescription" where
  "BodyMicroBatchDescription_init ifb inputs_dict mil mol cm =
     MicroBatchDescription_init ifb inputs_dict mil mol cm"

definition Body_cur_length :: "BodyMicroBatchDescription \<Rightarrow> error + int" where
  "Body_cur_length self = tensor_max (seq_len (infer_state self))"

definition Body_state :: "BodyMicroBatchDescription \<Rightarrow> error + Status" where
  "Body_state self =
     (case Body_cur_length self of
        Inl e \<Rightarrow> Inl e
      | Inr cur \<Rightarrow> Inr (state_from cur (target_length self)))"

text \<open>Method dispatch on the class of the object.\<close>

fun description_update :: "description \<Rightarrow> tensor option \<Rightarrow> error + description" where
  "description_update (Head h) new_token =
     (case Head_update h new_token of Inl e \<Rightarrow> Inl e | Inr h' \<Rightarrow> Inr (Head h'))"
| "description_update (Body b) new_token = Inr (Body b)"

fun description_state :: "description \<Rightarrow> error + Status" where
  "description_state (Head h) = Head_state h"
| "description_state (Body b) = Body_state b"

fun description_new_tokens :: "description \<Rightarrow> error + tensor option" where
  \<comment> \<open>\<^verbatim>\<open>i.new_tokens\<close>: only the first stage's descriptions have the attribute\<close>
  "description_new_tokens (Head h) = Inr (new_tokens h)"
| "description_new_tokens (Body b) = Inl AttributeError"

subsection \<open>MicroBatchManager\<close>

text \<open>
  \<^verbatim>\<open>mb_description_buffer\<close> is a Python dictionary, which keeps its keys in the order of
  their first insertion: it is an association list with distinct keys, a new key goes to
  the end and a key already present keeps its place (\<^const>\<open>AList.update\<close>). The
  dictionary holds references to the description objects, so a description updated in
  place is written back at its key. The attribute \<^verbatim>\<open>new_tokens_buffer\<close> is never read nor
  written after the constructor and is left out.
\<close>

record 'cm MicroBatchManager =
  stage :: int
  micro_batch_size :: int
  buffer_size :: int
  max_input_len :: int
  max_output_len :: int
  cache_manager_list :: "'cm list"
  mb_description_buffer :: "(int \<times> description) list"
  idx :: int

definition MicroBatchManager_init ::
  "int \<Rightarrow> int \<Rightarrow> int \<Rightarrow> int \<Rightarrow> int \<Rightarrow> 'cm list \<Rightarrow> 'cm MicroBatchManager" where
  "MicroBatchManager_init stg mbs bufsz mil mol cms =
     \<lparr> stage = stg, micro_batch_size = mbs, buffer_size = bufsz,
       max_input_len = mil, max_output_len = mol, cache_manager_list = cms,
       mb_description_buffer = [], idx = 0 \<rparr>"

definition list_item :: "'a list \<Rightarrow> int \<Rightarrow> error + 'a" where
  \<comment> \<open>\<^verbatim>\<open>xs[i]\<close> on a Python list: a negative index counts from the end\<close>
  "list_item xs i =
     (if 0 \<le> i \<and> i < int (length xs) then Inr (xs ! nat i)
      else if i < 0 \<and> - int (length xs) \<le> i then Inr (xs ! nat (int (length xs) + i))
      else Inl IndexError)"

definition dict_values :: "(int \<times> description) list \<Rightarrow> description list" where
  \<comment> \<open>\<^verbatim>\<open>d.values()\<close>, in the order of the dictionary\<close>
  "dict_values d = map snd d"

definition cur_description :: "'cm MicroBatchManager \<Rightarrow> description option" where
  \<comment> \<open>\<^verbatim>\<open>self.mb_description_buffer.get(self.idx)\<close>\<close>
  "cur_description self = map_of (mb_description_buffer self) (idx self)"

definition cur_state :: "'cm MicroBatchManager \<Rightarrow> error + Status" where
  "cur_state self =
     (case cur_description self of
        None \<Rightarrow> Inr PREFILL
      | Some d \<Rightarrow> description_state d)"

definition cur_infer_state :: "'cm MicroBatchManager \<Rightarrow> BatchInferState option" where
  "cur_infer_state self =
     (case cur_description self of
        None \<Rightarrow> None
      | Some (Head h) \<Rightarrow> Some (infer_state h)
      | Some (Body b) \<Rightarrow> Some (infer_state b))"

definition add_description ::
  "'cm init_from_batch \<Rightarrow> 'cm MicroBatchManager \<Rightarrow> inputs \<Rightarrow> error + 'cm MicroBatchManager" where
  "add_description ifb self inputs_dict =
     (if stage self = 0 then
        (case list_item (cache_manager_list self) (idx self) of
           Inl e \<Rightarrow> Inl e
         | Inr cm \<Rightarrow>
             (case HeadMicroBatchDescription_init ifb inputs_dict
                     (max_input_len self) (max_output_len self) cm of
                Inl e \<Rightarrow> Inl e
              | Inr h \<Rightarrow>
                  Inr (self\<lparr>mb_description_buffer :=
                         AList.update (idx self) (Head h) (mb_description_buffer self)\<rparr>)))
      else
        (case list_item (cache_manager_list self) (idx self) of
           Inl e \<Rightarrow> Inl e
         | Inr cm \<Rightarrow>
             (case BodyMicroBatchDescription_init ifb inputs_dict
                     (max_input_len self) (max_output_len self) cm of
                Inl e \<Rightarrow> Inl e
              | Inr b \<Rightarrow>
                  Inr (self\<lparr>mb_description_buffer :=
                         AList.update (idx self) (Body b) (mb_description_buffer self)\<rparr>))))"

definition step ::
  "'cm MicroBatchManager \<Rightarrow> tensor option \<Rightarrow> error + Status \<times> 'cm MicroBatchManager" where
  \<comment> \<open>\<^verbatim>\<open>None.update(...)\<close> raises \<^verbatim>\<open>AttributeError\<close>\<close>
  "step self new_token =
     (case cur_description self of
        None \<Rightarrow> Inl AttributeError
      | Some d \<Rightarrow>
          (case description_update d new_token of
             Inl e \<Rightarrow> Inl e
           | Inr d' \<Rightarrow>
               (let self' = self\<lparr>mb_description_buffer :=
                                  AList.update (idx self) d' (mb_description_buffer self)\<rparr>
                in case cur_state self' of
                     Inl e \<Rightarrow> Inl e
                   | Inr s \<Rightarrow> Inr (s, self'))))"

fun export_loop :: "description list \<Rightarrow> int list list \<Rightarrow> error + int list list" where
  \<comment> \<open>the loop of \<^verbatim>\<open>export_new_tokens\<close>; \<^verbatim>\<open>None.tolist()\<close> raises \<^verbatim>\<open>AttributeError\<close>\<close>
  "export_loop [] new_tokens_list = Inr new_tokens_list"
| "export_loop (i # rest) new_tokens_list =
     (case description_new_tokens i of
        Inl e \<Rightarrow> Inl e
      | Inr None \<Rightarrow> Inl AttributeError
      | Inr (Some t) \<Rightarrow> export_loop rest (new_tokens_list @ t))"

definition export_new_tokens :: "'cm MicroBatchManager \<Rightarrow> error + int list list" where
  "export_new_tokens self = export_loop (dict_values (mb_description_buffer self)) []"



definition next_idx :: "'cm MicroBatchManager \<Rightarrow> error + 'cm MicroBatchManager" where
  \<comment> \<open>the method \<^verbatim>\<open>next\<close>; Python's \<^verbatim>\<open>%\<close> takes the sign of the divisor, as \<open>mod\<close> does\<close>
  "next_idx self =
     (if buffer_size self = 0 then Inl ZeroDivisionError
      else Inr (self\<lparr>idx := (idx self + 1) mod buffer_size self\<rparr>))"

subsection \<open>Predicates on the descriptions of a manager\<close>

definition has_tokens :: "description \<Rightarrow> bool" where
  \<comment> \<open>a description of the first stage that has received a token\<close>
  "has_tokens d \<longleftrightarrow> (case d of Head h \<Rightarrow> new_tokens h \<noteq> None | Body b \<Rightarrow> False)"

definition rows_of :: "description \<Rightarrow> int list list" where
  \<comment> \<open>the rows of \<^verbatim>\<open>new_tokens\<close>, as \<^verbatim>\<open>tolist()\<close> returns them\<close>
  "rows_of d =
     (case d of
        Head h \<Rightarrow> (case new_tokens h of None \<Rightarrow> [] | Some t \<Rightarrow> t)
      | Body b \<Rightarrow> [])"

definition body_only :: "'cm MicroBatchManager \<Rightarrow> bool" where
  \<comment> \<open>every description of the dictionary is a \<^verbatim>\<open>BodyMicroBatchDescription\<close>\<close>
  "body_only self \<longleftrightarrow>
     list_all (\<lambda>d. case d of Head h \<Rightarrow> False | Body b \<Rightarrow> True)
       (dict_values (mb_description_buffer self))"

subsection \<open>A caller making a sequence of update calls\<close>

text \<open>
  \<open>updates\<close> calls \<^verbatim>\<open>update\<close> once for every element of a list of arguments, in turn, and
  \<open>observe\<close> reads the property \<^verbatim>\<open>state\<close> before the first call and after every call.
\<close>

fun updates ::
  "HeadMicroBatchDescription \<Rightarrow> tensor option list \<Rightarrow> error + HeadMicroBatchDescription" where
  "updates self [] = Inr self"
| "updates self (t # ts) =
     (case Head_update self t of Inl e \<Rightarrow> Inl e | Inr self' \<Rightarrow> updates self' ts)"

fun observe :: "HeadMicroBatchDescription \<Rightarrow> tensor option list \<Rightarrow> error + Status list" where
  "observe self [] = (case Head_state self of Inl e \<Rightarrow> Inl e | Inr s \<Rightarrow> Inr [s])"
| "observe self (t # ts) =
     (case Head_state self of
        Inl e \<Rightarrow> Inl e
      | Inr s \<Rightarrow>
          (case Head_update self t of
             Inl e \<Rightarrow> Inl e
           | Inr self' \<Rightarrow>
               (case observe self' ts of Inl e \<Rightarrow> Inl e | Inr ss \<Rightarrow> Inr (s # ss))))"

definition token_column :: "nat \<Rightarrow> tensor \<Rightarrow> bool" where
  \<comment> \<open>one newly produced token for each of \<open>n\<close> rows\<close>
  "token_column n t \<longleftrightarrow> length t = n \<and> list_all (\<lambda>r. length r = 1) t"

fun appended :: "tensor option list \<Rightarrow> int" where
  \<comment> \<open>the number of token columns that a list of arguments of \<^verbatim>\<open>update\<close> carries\<close>
  "appended [] = 0"
| "appended (None # ts) = appended ts"
| "appended (Some t # ts) = shape_last t + appended ts"

definition rows_ok :: "nat \<Rightarrow> HeadMicroBatchDescription \<Rightarrow> bool" where
  \<comment> \<open>the tokens generated so far, if any, have \<open>n\<close> rows\<close>
  "rows_ok n self \<longleftrightarrow> (case new_tokens self of None \<Rightarrow> True | Some a \<Rightarrow> length a = n)"

subsection \<open>Concrete objects\<close>

text \<open>
  A stand-in for \<^verbatim>\<open>init_from_batch\<close> that records the length of every input row, the
  manager of a first stage with two positions and \<^verbatim>\<open>max_output_len = 2\<close>, a batch of one
  row with three input tokens, and the description of that batch before the first token,
  after the token 7 and after the tokens 7 and 8.
\<close>

definition ex_init_from_batch :: "unit init_from_batch" where
  "ex_init_from_batch inputs_dict mil mol cm =
     (case inputs_dict of
        None \<Rightarrow> Inl ExternalError
      | Some m \<Rightarrow>
          (case dict_get m ''input_ids'' of
             None \<Rightarrow> Inl ExternalError
           | Some ids \<Rightarrow> Inr \<lparr> seq_len = map (\<lambda>r. int (length r)) ids \<rparr>))"

definition ex_inputs :: inputs where
  "ex_inputs =
     Some [''input_ids'' \<mapsto> Some [[11, 12, 13]], ''attention_mask'' \<mapsto> Some [[1, 1, 1]]]"

definition ex_manager :: "unit MicroBatchManager" where
  "ex_manager = MicroBatchManager_init 0 1 2 3 2 [(), ()]"

definition ex_head :: HeadMicroBatchDescription where
  "ex_head = \<lparr> mb_length = 3, target_length = 5, infer_state = \<lparr> seq_len = [3] \<rparr>,
               input_ids = [[11, 12, 13]], attn_mask = [[1, 1, 1]], new_tokens = None \<rparr>"

definition ex_head_a :: HeadMicroBatchDescription where
  "ex_head_a = ex_head\<lparr> attn_mask := [[1, 1, 1, 1]], new_tokens := Some [[7]] \<rparr>"

definition ex_head_ab :: HeadMicroBatchDescription where
  "ex_head_ab = ex_head\<lparr> attn_mask := [[1, 1, 1, 1]], new_tokens := Some [[7, 8]] \<rparr>"

definition ex_ring :: "unit MicroBatchManager" where
  "ex_ring = ex_manager\<lparr> mb_description_buffer := [(0, Head ex_head)] \<rparr>"

definition ex_ring_a :: "unit MicroBatchManager" where
  "ex_ring_a = ex_manager\<lparr> mb_description_buffer := [(0, Head ex_head_a)] \<rparr>"

definition ex_ring_ab :: "unit MicroBatchManager" where
  "ex_ring_ab = ex_manager\<lparr> mb_description_buffer := [(0, Head ex_head_ab)] \<rparr>"

text \<open>
  The same batch with \<^verbatim>\<open>max_output_len = 1\<close>: its description when created, and after two
  tokens.
\<close>

definition ex_head1 :: HeadMicroBatchDescription where
  "ex_head1 = ex_head\<lparr> target_length := 4 \<rparr>"

definition ex_head1_over :: HeadMicroBatchDescription where
  "ex_head1_over =
     ex_head1\<lparr> attn_mask := [[1, 1, 1, 1]], new_tokens := Some [[7, 8]] \<rparr>"

text \<open>
  The manager of a later stage, without a description and with one; and the manager of a
  first stage with batches of two rows, whose two positions have each generated two
  tokens for each row.
\<close>

definition ex_body_manager :: "unit MicroBatchManager" where
  "ex_body_manager = MicroBatchManager_init 1 1 2 3 2 [(), ()]"

definition ex_body :: BodyMicroBatchDescription where
  "ex_body = \<lparr> mb_length = 3, target_length = 5, infer_state = \<lparr> seq_len = [3] \<rparr> \<rparr>"

definition ex_body_ring :: "unit MicroBatchManager" where
  "ex_body_ring = ex_body_manager\<lparr> mb_description_buffer := [(0, Body ex_body)] \<rparr>"

definition ex_rows0 :: HeadMicroBatchDescription where
  "ex_rows0 = \<lparr> mb_length = 1, target_length = 3, infer_state = \<lparr> seq_len = [1, 1] \<rparr>,
               input_ids = [[11], [12]], attn_mask = [[1, 1], [1, 1]],
               new_tokens = Some [[1, 2], [3, 4]] \<rparr>"

definition ex_rows1 :: HeadMicroBatchDescription where
  "ex_rows1 = ex_rows0\<lparr> new_tokens := Some [[5, 6], [7, 8]] \<rparr>"

definition ex_ring2 :: "unit MicroBatchManager" where
  "ex_ring2 = (MicroBatchManager_init 0 2 2 1 2 [(), ()])
                \<lparr> mb_description_buffer := [(0, Head ex_rows0), (1, Head ex_rows1)], idx := 1 \<rparr>"

definition ex_inputs2 :: inputs where
  "ex_inputs2 =
     Some [''input_ids'' \<mapsto> Some [[11], [12]], ''attention_mask'' \<mapsto> Some [[1], [1]]]"

definition ex_manager2 :: "unit MicroBatchManager" where
  "ex_manager2 = MicroBatchManager_init 0 2 2 1 2 [(), ()]"

text \<open>
  Managers of a first stage with three positions: two finished descriptions and one that
  has yet to generate; two finished descriptions; and, at position 0, a description whose
  \<^verbatim>\<open>new_tokens\<close> is a tensor without rows (what \<^verbatim>\<open>update\<close> leaves behind when it is given such
  a tensor: it assigns \<^verbatim>\<open>new_tokens\<close> and then raises on reading \<^verbatim>\<open>state\<close>), with a description
  that has yet to generate at position 1.
\<close>

definition ex_manager3 :: "unit MicroBatchManager" where
  "ex_manager3 = MicroBatchManager_init 0 1 3 3 2 [(), (), ()]"

definition ex_ring_ddg :: "unit MicroBatchManager" where
  "ex_ring_ddg = ex_manager3\<lparr> mb_description_buffer :=
                    [(0, Head ex_head_ab), (1, Head ex_head_ab), (2, Head ex_head)] \<rparr>"

definition ex_ring_dd :: "unit MicroBatchManager" where
  "ex_ring_dd = ex_manager3\<lparr> mb_description_buffer :=
                   [(0, Head ex_head_ab), (1, Head ex_head_ab)] \<rparr>"

definition ex_head_norows :: HeadMicroBatchDescription where
  "ex_head_norows = ex_head\<lparr> new_tokens := Some [] \<rparr>"

definition ex_ring_gap :: "unit MicroBatchManager" where
  "ex_ring_gap = ex_manager3\<lparr> mb_description_buffer :=
                    [(0, Head ex_head_norows), (1, Head ex_head)] \<rparr>"

section \<open>Properties\<close>

lemmas ex_defs = ex_head_def ex_head_a_def ex_head_ab_def ex_ring_def ex_ring_a_def ex_ring_ab_def
  ex_manager_def MicroBatchManager_init_def ex_inputs_def ex_init_from_batch_def
  ex_head1_def ex_head1_over_def

lemmas ex2_defs = ex_body_manager_def ex_body_def ex_body_ring_def ex_rows0_def ex_rows1_def
  ex_ring2_def ex_inputs2_def ex_manager2_def

lemmas ex3_defs = ex_manager3_def ex_ring_ddg_def ex_ring_dd_def ex_head_norows_def ex_ring_gap_def

lemmas eval_defs = Head_update_def Head_state_def Head_cur_length_def update_newtokens_def
  update_attnmask_def cat_last_def ones_def len_row0_def shape_last_def state_from_def
  cur_description_def cur_state_def dict_values_def getitem_def dict_get_def
  HeadMicroBatchDescription_init_def MicroBatchDescription_init_def
  BodyMicroBatchDescription_init_def list_item_def tensor_max_def Body_state_def Body_cur_length_def

subsection \<open>The scenario of one batch generating two tokens\<close>

lemma scenario_two_tokens:
  "add_description ex_init_from_batch ex_manager ex_inputs = Inr ex_ring"
  "cur_state ex_ring = Inr GENERATE"
  "step ex_ring (Some [[7]]) = Inr (COOLDOWN, ex_ring_a)"
  "step ex_ring_a (Some [[8]]) = Inr (DONE, ex_ring_ab)"
  "export_new_tokens ex_ring_ab = Inr [[7, 8]]"
  by (simp_all add: ex_defs eval_defs add_description_def step_def export_new_tokens_def)

subsection \<open>update without a token\<close>

lemma Head_update_None:
  "Head_update self None = (case Head_state self of Inl e \<Rightarrow> Inl e | Inr s \<Rightarrow> Inr self)"
  by (simp add: Head_update_def split: sum.splits)

lemma Head_state_defined:
  "new_tokens self \<noteq> Some [] \<Longrightarrow> \<exists>s. Head_state self = Inr s"
  by (auto simp: Head_state_def Head_cur_length_def len_row0_def split: option.splits list.splits)

text \<open>
  C10. A call of \<^verbatim>\<open>update\<close> with \<^verbatim>\<open>None\<close> on a description of the first stage leaves the
  description as it was: when the call returns, the object after the call is the object
  before it, so \<^verbatim>\<open>new_tokens\<close>, \<^verbatim>\<open>attn_mask\<close>, \<^verbatim>\<open>cur_length\<close> and \<^verbatim>\<open>state\<close> are the same.
  The call returns whenever \<^verbatim>\<open>new_tokens\<close> is not a tensor without rows (the only case in
  which reading \<^verbatim>\<open>state\<close> raises, and then nothing has been assigned either).
\<close>

theorem head_update_None_unchanged:
  "(new_tokens self \<noteq> Some [] \<longrightarrow> Head_update self None = Inr self) \<and>
   (\<forall>self'. Head_update self None = Inr self' \<longrightarrow>
      self' = self \<and> new_tokens self' = new_tokens self \<and> attn_mask self' = attn_mask self \<and>
      Head_cur_length self' = Head_cur_length self \<and> Head_state self' = Head_state self)"
proof (intro conjI impI allI)
  assume "new_tokens self \<noteq> Some []"
  then obtain s where "Head_state self = Inr s"
    using Head_state_defined by blast
  then show "Head_update self None = Inr self"
    by (simp add: Head_update_None)
next
  fix self'
  assume "Head_update self None = Inr self'"
  then have eq: "self' = self"
    by (simp add: Head_update_None split: sum.splits)
  show "self' = self" by (rule eq)
  show "new_tokens self' = new_tokens self" by (simp add: eq)
  show "attn_mask self' = attn_mask self" by (simp add: eq)
  show "Head_cur_length self' = Head_cur_length self" by (simp add: eq)
  show "Head_state self' = Head_state self" by (simp add: eq)
qed

theorem head_update_None_unchanged_witness:
  "new_tokens ex_head_a \<noteq> Some [] \<and> Head_update ex_head_a None = Inr ex_head_a"
  using head_update_None_unchanged [of ex_head_a] by (simp add: ex_defs)

subsection \<open>Constructing a description of a later stage\<close>

text \<open>
  C9. The constructor of \<^verbatim>\<open>BodyMicroBatchDescription\<close> passes \<^verbatim>\<open>inputs_dict\<close> to the
  constructor of the base class, which subscripts it: with \<^verbatim>\<open>inputs_dict = None\<close>, the
  value its docstring announces, the construction raises \<^verbatim>\<open>TypeError\<close>, whatever the other
  arguments.
\<close>

theorem body_init_None_raises:
  "BodyMicroBatchDescription_init ifb None mil mol cm = Inl TypeError"
  by (simp add: BodyMicroBatchDescription_init_def MicroBatchDescription_init_def getitem_def)

lemma body_init_missing_key_raises:
  "m ''input_ids'' = None \<Longrightarrow>
   BodyMicroBatchDescription_init ifb (Some m) mil mol cm = Inl KeyError"
  by (simp add: BodyMicroBatchDescription_init_def MicroBatchDescription_init_def getitem_def)

subsection \<open>step\<close>

lemma cur_state_written:
  "cur_state (self\<lparr>mb_description_buffer :=
                     AList.update (idx self) d (mb_description_buffer self)\<rparr>)
     = description_state d"
  by (simp add: cur_state_def cur_description_def update_conv')

text \<open>
  C2. \<^verbatim>\<open>step\<close> on a manager without a description at the current index raises (the
  exception of the code is the \<^verbatim>\<open>AttributeError\<close> of calling \<^verbatim>\<open>update\<close> on \<^verbatim>\<open>None\<close>).
  With a description \<open>d\<close> there, \<^verbatim>\<open>step\<close> is the \<^verbatim>\<open>update\<close> of \<open>d\<close>: it raises what the
  update raises, and otherwise returns the state of the updated description, which is
  the description at the current index afterwards.
\<close>

theorem step_delegates:
  "(cur_description self = None \<longrightarrow> step self new_token = Inl AttributeError) \<and>
   (\<forall>d. cur_description self = Some d \<longrightarrow>
      step self new_token =
        (case description_update d new_token of
           Inl e \<Rightarrow> Inl e
         | Inr d' \<Rightarrow>
             (case description_state d' of
                Inl e \<Rightarrow> Inl e
              | Inr s \<Rightarrow>
                  Inr (s, self\<lparr>mb_description_buffer :=
                               AList.update (idx self) d' (mb_description_buffer self)\<rparr>))))"
  by (auto simp: step_def cur_state_written Let_def split: sum.splits)

theorem step_delegates_witness:
  "cur_description ex_manager = None \<and> step ex_manager (Some [[7]]) = Inl AttributeError \<and>
   cur_description ex_ring = Some (Head ex_head) \<and>
   step ex_ring (Some [[7]]) = Inr (COOLDOWN, ex_ring_a)"
  using step_delegates [of ex_manager "Some [[7]]"] step_delegates [of ex_ring "Some [[7]]"]
  by (simp add: ex_defs eval_defs)

subsection \<open>is_micro_batch_done\<close>







text \<open>
  How the description without rows comes about: \<^verbatim>\<open>_update_newtokens\<close> has assigned the
  tensor when reading \<^verbatim>\<open>state\<close> makes \<^verbatim>\<open>update\<close> raise.
\<close>

lemma no_rows_slot:
  "update_newtokens ex_head [] = Inr ex_head_norows"
  "Head_state ex_head_norows = Inl IndexError"
  "Head_update ex_head (Some []) = Inl IndexError"
  by (simp_all add: ex3_defs ex_defs eval_defs)

subsection \<open>update with a token\<close>

lemma update_attnmask_eq:
  "update_attnmask self = Inr (self\<lparr>attn_mask := map (\<lambda>r. r @ [1]) (attn_mask self)\<rparr>)"
proof -
  have "map2 (@) xs (replicate (length xs) [1]) = map (\<lambda>r. r @ [1]) xs" for xs :: tensor
    by (induction xs) simp_all
  then show ?thesis
    by (simp add: update_attnmask_def cat_last_def ones_def)
qed

lemma cat_last_Inr:
  "cat_last a b = Inr c \<longleftrightarrow> length a = length b \<and> c = map2 (@) a b"
  by (auto simp: cat_last_def)


lemma shape_last_map2:
  "length a = length b \<Longrightarrow> shape_last (map2 (@) a b) = shape_last a + shape_last b"
  by (cases a; cases b) (simp_all add: shape_last_def)

lemma shape_last_nonneg: "0 \<le> shape_last t"
  by (cases t) (simp_all add: shape_last_def)

lemma Head_state_attn_mask:
  "Head_state (self\<lparr>attn_mask := m\<rparr>) = Head_state self"
  by (simp add: Head_state_def Head_cur_length_def split: option.splits sum.splits)

lemma Head_cur_length_attn_mask:
  "Head_cur_length (self\<lparr>attn_mask := m\<rparr>) = Head_cur_length self"
  by (simp add: Head_cur_length_def split: option.splits sum.splits)

lemma Head_state_new_tokens:
  "Head_state (self\<lparr>new_tokens := Some nt\<rparr>) = Inr s \<longleftrightarrow>
     nt \<noteq> [] \<and> s = state_from (mb_length self + shape_last nt) (target_length self)"
  by (cases nt) (auto simp: Head_state_def Head_cur_length_def len_row0_def shape_last_def)

lemma Head_cur_length_Inr:
  "Head_cur_length self = Inr c \<longleftrightarrow>
     (case new_tokens self of None \<Rightarrow> c = mb_length self
      | Some old \<Rightarrow> old \<noteq> [] \<and> c = mb_length self + shape_last old)"
  by (auto simp: Head_cur_length_def len_row0_def shape_last_def split: option.splits list.splits)

text \<open>What one call with a token does, when it returns.\<close>

lemma Head_update_Some:
  assumes "Head_update self (Some t) = Inr self'"
  shows "\<exists>nt s. (case new_tokens self of None \<Rightarrow> nt = t
                  | Some old \<Rightarrow> length old = length t \<and> nt = map2 (@) old t) \<and>
           nt \<noteq> [] \<and>
           s = state_from (mb_length self + shape_last nt) (target_length self) \<and>
           Head_state self' = Inr s \<and>
           self' = self\<lparr>new_tokens := Some nt,
                         attn_mask := (if s = DONE then attn_mask self
                                       else map (\<lambda>r. r @ [1]) (attn_mask self))\<rparr>"
proof -
  from assms obtain self1 where u: "update_newtokens self t = Inr self1"
    by (auto simp: Head_update_def split: sum.splits)
  then obtain nt where nt: "self1 = self\<lparr>new_tokens := Some nt\<rparr>"
    and shape: "case new_tokens self of None \<Rightarrow> nt = t
                | Some old \<Rightarrow> length old = length t \<and> nt = map2 (@) old t"
    by (auto simp: update_newtokens_def cat_last_Inr split: option.splits sum.splits)
  from assms u obtain s where s: "Head_state self1 = Inr s"
    by (auto simp: Head_update_def split: sum.splits)
  then have ne: "nt \<noteq> []"
    and sv: "s = state_from (mb_length self + shape_last nt) (target_length self)"
    using nt by (simp_all add: Head_state_new_tokens)
  from assms u s have r:
    "self' = (if s \<noteq> DONE then self1\<lparr>attn_mask := map (\<lambda>r. r @ [1]) (attn_mask self1)\<rparr>
              else self1)"
    by (auto simp: Head_update_def update_attnmask_eq split: if_splits)
  have st': "Head_state self' = Inr s"
    using r s by (simp add: Head_state_attn_mask)
  have "self' = self\<lparr>new_tokens := Some nt,
                         attn_mask := (if s = DONE then attn_mask self
                                       else map (\<lambda>r. r @ [1]) (attn_mask self))\<rparr>"
    using r nt by auto
  with shape ne sv st' show ?thesis by blast
qed

subsection \<open>The length of a description of the first stage\<close>

lemma appended_nonneg: "0 \<le> appended ts"
  by (induction ts rule: appended.induct) (simp_all add: shape_last_nonneg)

lemma Head_update_cur_length:
  assumes "Head_update self tok = Inr self'" and "Head_cur_length self = Inr c"
  shows "Head_cur_length self' = Inr (c + appended [tok]) \<and>
         target_length self' = target_length self \<and> mb_length self' = mb_length self"
proof (cases tok)
  case None
  with assms show ?thesis
    by (simp add: Head_update_None split: sum.splits)
next
  case (Some t)
  from Head_update_Some [OF assms(1) [unfolded Some]] obtain nt s where
    nt: "case new_tokens self of None \<Rightarrow> nt = t
         | Some old \<Rightarrow> length old = length t \<and> nt = map2 (@) old t"
    and ne: "nt \<noteq> []"
    and self': "self' = self\<lparr>new_tokens := Some nt,
                         attn_mask := (if s = DONE then attn_mask self
                                       else map (\<lambda>r. r @ [1]) (attn_mask self))\<rparr>"
    by blast
  have "mb_length self + shape_last nt = c + shape_last t"
    using nt assms(2) by (auto simp: Head_cur_length_Inr shape_last_map2 split: option.splits)
  then show ?thesis
    using ne self' Some by (simp add: Head_cur_length_Inr)
qed

lemma updates_cur_length:
  "updates self ts = Inr self' \<Longrightarrow> Head_cur_length self = Inr c \<Longrightarrow>
   Head_cur_length self' = Inr (c + appended ts) \<and> target_length self' = target_length self"
proof (induction ts arbitrary: self c)
  case Nil
  then show ?case by simp
next
  case (Cons tok ts)
  from Cons.prems(1) obtain self1 where
    u: "Head_update self tok = Inr self1" and r: "updates self1 ts = Inr self'"
    by (auto split: sum.splits)
  from Head_update_cur_length [OF u Cons.prems(2)]
  have c1: "Head_cur_length self1 = Inr (c + appended [tok])"
    and t1: "target_length self1 = target_length self" by simp_all
  from Cons.IH [OF r c1] t1 show ?case
    by (cases tok) (simp_all add: add.assoc)
qed

text \<open>
  C6, as the code has it. Across every sequence of calls of \<^verbatim>\<open>update\<close> that return, with any
  arguments and from any state in which \<^verbatim>\<open>cur_length\<close> is defined, \<^verbatim>\<open>cur_length\<close> does not
  decrease: it grows by the number of token columns the calls carry, and \<^verbatim>\<open>target_length\<close>
  stays. It is at most \<^verbatim>\<open>target_length\<close> afterwards exactly when no more columns were
  appended than were missing; \<^verbatim>\<open>update\<close> does not refuse a token once the target is reached.
\<close>

theorem cur_length_monotone:
  assumes "updates self ts = Inr self'" and "Head_cur_length self = Inr c"
  shows "\<exists>c'. Head_cur_length self' = Inr c' \<and> c \<le> c' \<and> c' = c + appended ts \<and>
           target_length self' = target_length self \<and>
           (c' \<le> target_length self' \<longleftrightarrow> appended ts \<le> target_length self - c)"
  using updates_cur_length [OF assms] appended_nonneg [of ts] by auto

theorem cur_length_monotone_witness:
  "updates ex_head [Some [[7]], None, Some [[8]]] = Inr ex_head_ab \<and>
   Head_cur_length ex_head = Inr 3 \<and> Head_cur_length ex_head_ab = Inr 5 \<and>
   target_length ex_head_ab = 5"
proof -
  have u: "updates ex_head [Some [[7]], None, Some [[8]]] = Inr ex_head_ab"
    by (simp add: ex_defs eval_defs)
  have c: "Head_cur_length ex_head = Inr 3"
    by (simp add: ex_defs eval_defs)
  from cur_length_monotone [OF u c] u c show ?thesis
    by (simp add: shape_last_def ex_defs)
qed

text \<open>
  The claim as the specification states it fails: a description created with
  \<^verbatim>\<open>max_output_len = 1\<close> that receives two tokens has length 5 and target length 4.
\<close>

theorem cur_length_exceeds_target_counterexample:
  "HeadMicroBatchDescription_init ex_init_from_batch ex_inputs 3 1 () = Inr ex_head1 \<and>
   updates ex_head1 [Some [[7]], Some [[8]]] = Inr ex_head1_over \<and>
   Head_cur_length ex_head1_over = Inr 5 \<and> target_length ex_head1_over = 4"
  by (simp add: ex_defs eval_defs)

subsection \<open>The attention mask\<close>





subsection \<open>The states of a description of the first stage\<close>

lemma token_column_shape: "0 < n \<Longrightarrow> token_column n t \<Longrightarrow> t \<noteq> [] \<and> shape_last t = 1 \<and> length t = n"
  by (cases t) (auto simp: token_column_def shape_last_def)

lemma Head_update_via:
  "update_newtokens self t = Inr self1 \<Longrightarrow> Head_cur_length self1 = Inr c1 \<Longrightarrow>
   Head_update self (Some t) =
     Inr (if state_from c1 (target_length self1) = DONE then self1
          else self1\<lparr>attn_mask := map (\<lambda>r. r @ [1]) (attn_mask self1)\<rparr>)"
  by (simp add: Head_update_def Head_state_def update_attnmask_eq)

lemma rows_ok_attn_mask: "rows_ok n (self\<lparr>attn_mask := m\<rparr>) = rows_ok n self"
  by (simp add: rows_ok_def)

lemma update_newtokens_column:
  assumes "0 < n" and "token_column n t" and "rows_ok n self" and "Head_cur_length self = Inr c"
  shows "\<exists>self1. update_newtokens self t = Inr self1 \<and> rows_ok n self1 \<and>
           Head_cur_length self1 = Inr (c + 1) \<and> target_length self1 = target_length self"
proof -
  from token_column_shape [OF assms(1,2)]
  have t: "t \<noteq> []" "shape_last t = 1" "length t = n" by simp_all
  show ?thesis
  proof (cases "new_tokens self")
    case None
    then have "update_newtokens self t = Inr (self\<lparr>new_tokens := Some t\<rparr>)"
      by (simp add: update_newtokens_def)
    moreover have "Head_cur_length (self\<lparr>new_tokens := Some t\<rparr>) = Inr (c + 1)"
      using assms(4) None t by (simp add: Head_cur_length_Inr)
    moreover have "rows_ok n (self\<lparr>new_tokens := Some t\<rparr>)"
      using t by (simp add: rows_ok_def)
    ultimately show ?thesis by simp
  next
    case (Some old)
    with assms(3) have lo: "length old = n" by (simp add: rows_ok_def)
    from assms(4) Some have old: "old \<noteq> []" "c = mb_length self + shape_last old"
      by (simp_all add: Head_cur_length_Inr)
    have u: "update_newtokens self t = Inr (self\<lparr>new_tokens := Some (map2 (@) old t)\<rparr>)"
      using Some lo t by (simp add: update_newtokens_def cat_last_def)
    have sl: "shape_last (map2 (@) old t) = shape_last old + 1" and ne: "map2 (@) old t \<noteq> []"
      using lo t old by (cases old; cases t; simp add: shape_last_def)+
    have "Head_cur_length (self\<lparr>new_tokens := Some (map2 (@) old t)\<rparr>) = Inr (c + 1)"
      using old sl ne by (simp add: Head_cur_length_Inr)
    moreover have "rows_ok n (self\<lparr>new_tokens := Some (map2 (@) old t)\<rparr>)"
      using lo t by (simp add: rows_ok_def)
    ultimately show ?thesis using u by simp
  qed
qed

lemma Head_update_column:
  assumes "0 < n" and "token_column n t" and "rows_ok n self" and "Head_cur_length self = Inr c"
  shows "\<exists>self'. Head_update self (Some t) = Inr self' \<and> rows_ok n self' \<and>
           Head_cur_length self' = Inr (c + 1) \<and> target_length self' = target_length self"
proof -
  from update_newtokens_column [OF assms] obtain self1 where
    u: "update_newtokens self t = Inr self1" and ok: "rows_ok n self1"
    and c1: "Head_cur_length self1 = Inr (c + 1)" and tl: "target_length self1 = target_length self"
    by blast
  show ?thesis
    using Head_update_via [OF u c1] ok c1 tl
    by (simp add: rows_ok_attn_mask Head_cur_length_attn_mask)
qed

lemma observe_columns:
  "0 < n \<Longrightarrow> \<forall>t\<in>set toks. token_column n t \<Longrightarrow> rows_ok n self \<Longrightarrow>
   Head_cur_length self = Inr c \<Longrightarrow>
   observe self (map Some toks) =
     Inr (map (\<lambda>i. state_from (c + int i) (target_length self)) [0..<Suc (length toks)])"
proof (induction toks arbitrary: self c)
  case Nil
  then show ?case by (simp add: Head_state_def)
next
  case (Cons t toks)
  from Head_update_column [OF Cons.prems(1) _ Cons.prems(3,4), of t] Cons.prems(2)
  obtain self' where u: "Head_update self (Some t) = Inr self'" and ok: "rows_ok n self'"
    and c': "Head_cur_length self' = Inr (c + 1)" and tl: "target_length self' = target_length self"
    by auto
  have ih: "observe self' (map Some toks) =
     Inr (map (\<lambda>i. state_from (c + 1 + int i) (target_length self)) [0..<Suc (length toks)])"
    using Cons.IH [OF Cons.prems(1) _ ok c'] Cons.prems(2) tl by simp
  have shift: "c + int (Suc i) = c + 1 + int i" for i by simp
  have "map (\<lambda>i. state_from (c + int i) (target_length self)) [0..<Suc (Suc (length toks))]
      = state_from c (target_length self) #
        map (\<lambda>i. state_from (c + 1 + int i) (target_length self)) [0..<Suc (length toks)]"
    by (simp only: map_upt_Suc [of _ "Suc (length toks)"] shift) simp
  then show ?case
    using u ih Cons.prems(4) by (simp add: Head_state_def del: upt_Suc)
qed

lemma state_sequence:
  "map (\<lambda>i. state_from (L + int i) (L + int (Suc m))) [0..<Suc (Suc m)]
     = replicate m GENERATE @ [COOLDOWN, DONE]"
proof (rule nth_equalityI)
  show "length (map (\<lambda>i. state_from (L + int i) (L + int (Suc m))) [0..<Suc (Suc m)])
      = length (replicate m GENERATE @ [COOLDOWN, DONE])" by simp
next
  fix i
  assume "i < length (map (\<lambda>i. state_from (L + int i) (L + int (Suc m))) [0..<Suc (Suc m)])"
  then have i: "i < Suc (Suc m)" by simp
  consider "i < m" | "i = m" | "i = Suc m" using i by linarith
  then show "map (\<lambda>i. state_from (L + int i) (L + int (Suc m))) [0..<Suc (Suc m)] ! i
      = (replicate m GENERATE @ [COOLDOWN, DONE]) ! i"
  proof cases
    case 1
    then show ?thesis using i
      by (simp only: nth_map_upt [of i "Suc (Suc m)" 0, simplified] nth_append) (simp add: state_from_def nth_append)
  next
    case 2
    then show ?thesis
      by (simp add: state_from_def nth_append del: upt_Suc)
  next
    case 3
    then show ?thesis
      by (simp add: state_from_def nth_append del: upt_Suc)
  qed
qed

lemma Head_init_Inr:
  assumes "HeadMicroBatchDescription_init ifb inputs_dict mil mol cm = Inr self"
  shows "new_tokens self = None \<and> target_length self = mb_length self + mol"
  using assms
  by (auto simp: HeadMicroBatchDescription_init_def MicroBatchDescription_init_def
      split: sum.splits option.splits)

lemma observe_updates:
  "observe self ts = Inr ss \<Longrightarrow> j \<le> length ts \<Longrightarrow>
   \<exists>self'. updates self (take j ts) = Inr self' \<and> Head_state self' = Inr (ss ! j)"
proof (induction ts arbitrary: self ss j)
  case Nil
  then show ?case by (auto split: sum.splits)
next
  case (Cons t ts)
  from Cons.prems(1) obtain s self1 ss1 where
    s: "Head_state self = Inr s" and u: "Head_update self t = Inr self1"
    and o: "observe self1 ts = Inr ss1" and ss: "ss = s # ss1"
    by (auto split: sum.splits)
  show ?case
  proof (cases j)
    case 0
    then show ?thesis using s ss by simp
  next
    case (Suc j')
    with Cons.prems(2) have "j' \<le> length ts" by simp
    from Cons.IH [OF o this] u Suc ss show ?thesis by simp
  qed
qed

text \<open>
  C4. Let a description of the first stage be created with \<^verbatim>\<open>max_output_len = k\<close>, \<open>k \<ge> 1\<close>,
  and let it receive \<open>k\<close> tokens, each a column with one token for each of the \<open>n \<ge> 1\<close> rows
  of the batch. Then every call returns, and the states read after the creation and after
  every call are \<^verbatim>\<open>GENERATE\<close> \<open>k - 1\<close> times, then \<^verbatim>\<open>COOLDOWN\<close>, then \<^verbatim>\<open>DONE\<close>: the description
  is \<^verbatim>\<open>DONE\<close> after the \<open>k\<close>-th call and after no earlier one, and for \<open>k = 1\<close> it is in state
  \<^verbatim>\<open>COOLDOWN\<close> when created.
\<close>

theorem head_state_sequence:
  assumes "1 \<le> k"
    and "HeadMicroBatchDescription_init ifb inputs_dict mil k cm = Inr self"
    and "0 < n" and "length toks = nat k" and "\<forall>t\<in>set toks. token_column n t"
  shows "observe self (map Some toks) = Inr (replicate (nat k - 1) GENERATE @ [COOLDOWN, DONE]) \<and>
         (\<exists>self'. updates self (map Some toks) = Inr self' \<and> Head_state self' = Inr DONE) \<and>
         (\<forall>j<nat k. \<exists>self' s. updates self (map Some (take j toks)) = Inr self' \<and>
                       Head_state self' = Inr s \<and> s \<noteq> DONE) \<and>
         (k = 1 \<longrightarrow> Head_state self = Inr COOLDOWN)"
proof -
  define m where "m = nat k - 1"
  have m: "nat k = Suc m" and km: "k = int (Suc m)"
    using assms(1) by (simp_all add: m_def)
  from Head_init_Inr [OF assms(2)]
  have fresh: "new_tokens self = None" and tl: "target_length self = mb_length self + int (Suc m)"
    using km by simp_all
  have ok: "rows_ok n self" and c: "Head_cur_length self = Inr (mb_length self)"
    using fresh by (simp_all add: rows_ok_def Head_cur_length_def)
  let ?ss = "replicate m GENERATE @ [COOLDOWN, DONE]"
  have obs: "observe self (map Some toks) = Inr ?ss"
    using observe_columns [OF assms(3,5) ok c] assms(4) m tl
    by (simp only: state_sequence)
  have len: "length (map Some toks) = Suc m" using assms(4) m by simp
  have final: "\<exists>self'. updates self (map Some toks) = Inr self' \<and> Head_state self' = Inr DONE"
    using observe_updates [OF obs, of "Suc m"] len by (simp add: nth_append)
  have early: "\<exists>self' s. updates self (map Some (take j toks)) = Inr self' \<and>
                 Head_state self' = Inr s \<and> s \<noteq> DONE" if "j < nat k" for j
  proof -
    from that m have j: "j \<le> m" by simp
    then have "?ss ! j \<noteq> DONE" by (cases "j < m") (simp_all add: nth_append)
    with observe_updates [OF obs, of j] j len show ?thesis
      by (auto simp: take_map)
  qed
  have first: "Head_state self = Inr COOLDOWN" if "k = 1"
    using that c tl km by (simp add: Head_state_def state_from_def)
  show ?thesis
    using obs final early first by (simp add: m_def)
qed

theorem head_state_sequence_witness:
  "(1::int) \<le> 2 \<and> HeadMicroBatchDescription_init ex_init_from_batch ex_inputs 3 2 () = Inr ex_head \<and>
   (0::nat) < 1 \<and> length [[[7]], [[8::int]]] = nat 2 \<and>
   token_column 1 [[7]] \<and> token_column 1 [[8]] \<and>
   observe ex_head (map Some [[[7]], [[8]]]) = Inr [GENERATE, COOLDOWN, DONE]"
proof -
  have h: "HeadMicroBatchDescription_init ex_init_from_batch ex_inputs 3 2 () = Inr ex_head"
    by (simp add: ex_defs eval_defs)
  have c: "\<forall>t\<in>set [[[7]], [[8]]]. token_column 1 t"
    by (simp add: token_column_def)
  from head_state_sequence [OF _ h _ _ c] h c show ?thesis
    by (simp add: numeral_2_eq_2)
qed

subsection \<open>add_description on an occupied position\<close>

lemma update_present_keys:
  "map_of al k = Some old \<Longrightarrow> map fst (AList.update k v al) = map fst al"
  by (induction al) (auto split: if_splits)

text \<open>
  C1, as the code has it. \<^verbatim>\<open>add_description\<close> does not look at the dictionary before it
  writes. When a description is at the current index, the cache manager of that index
  exists and the constructor of the new description returns, \<^verbatim>\<open>add_description\<close> returns
  too and puts the new description at the current index in place of the old one; the
  keys of the dictionary and their order stay, and so does every other position.
\<close>

theorem add_description_replaces:
  assumes "cur_description self = Some old"
    and "list_item (cache_manager_list self) (idx self) = Inr cm"
  shows "(stage self = 0 \<longrightarrow>
           (\<forall>h. HeadMicroBatchDescription_init ifb inputs_dict
                   (max_input_len self) (max_output_len self) cm = Inr h \<longrightarrow>
                add_description ifb self inputs_dict =
                  Inr (self\<lparr>mb_description_buffer :=
                         AList.update (idx self) (Head h) (mb_description_buffer self)\<rparr>))) \<and>
         (stage self \<noteq> 0 \<longrightarrow>
           (\<forall>b. BodyMicroBatchDescription_init ifb inputs_dict
                   (max_input_len self) (max_output_len self) cm = Inr b \<longrightarrow>
                add_description ifb self inputs_dict =
                  Inr (self\<lparr>mb_description_buffer :=
                         AList.update (idx self) (Body b) (mb_description_buffer self)\<rparr>))) \<and>
         (\<forall>d. cur_description (self\<lparr>mb_description_buffer :=
                   AList.update (idx self) d (mb_description_buffer self)\<rparr>) = Some d \<and>
              map fst (AList.update (idx self) d (mb_description_buffer self))
                = map fst (mb_description_buffer self) \<and>
              (\<forall>k. k \<noteq> idx self \<longrightarrow>
                 map_of (AList.update (idx self) d (mb_description_buffer self)) k
                   = map_of (mb_description_buffer self) k))"
proof (intro conjI impI allI)
  fix h
  assume "stage self = 0"
    and "HeadMicroBatchDescription_init ifb inputs_dict
           (max_input_len self) (max_output_len self) cm = Inr h"
  then show "add_description ifb self inputs_dict =
      Inr (self\<lparr>mb_description_buffer :=
             AList.update (idx self) (Head h) (mb_description_buffer self)\<rparr>)"
    using assms(2) by (simp add: add_description_def)
next
  fix b
  assume "stage self \<noteq> 0"
    and "BodyMicroBatchDescription_init ifb inputs_dict
           (max_input_len self) (max_output_len self) cm = Inr b"
  then show "add_description ifb self inputs_dict =
      Inr (self\<lparr>mb_description_buffer :=
             AList.update (idx self) (Body b) (mb_description_buffer self)\<rparr>)"
    using assms(2) by (simp add: add_description_def)
next
  fix d
  show "cur_description (self\<lparr>mb_description_buffer :=
          AList.update (idx self) d (mb_description_buffer self)\<rparr>) = Some d"
    by (simp add: cur_description_def update_conv')
  show "map fst (AList.update (idx self) d (mb_description_buffer self))
      = map fst (mb_description_buffer self)"
    using assms(1) by (simp add: cur_description_def update_present_keys)
next
  fix d k
  assume "k \<noteq> idx self"
  then show "map_of (AList.update (idx self) d (mb_description_buffer self)) k
      = map_of (mb_description_buffer self) k"
    by (simp add: update_conv')
qed

theorem add_description_replaces_witness:
  "cur_description ex_ring_a = Some (Head ex_head_a) \<and>
   list_item (cache_manager_list ex_ring_a) (idx ex_ring_a) = Inr () \<and>
   stage ex_ring_a = 0 \<and>
   HeadMicroBatchDescription_init ex_init_from_batch ex_inputs
     (max_input_len ex_ring_a) (max_output_len ex_ring_a) () = Inr ex_head \<and>
   add_description ex_init_from_batch ex_ring_a ex_inputs = Inr ex_ring"
proof -
  have c: "cur_description ex_ring_a = Some (Head ex_head_a)"
    by (simp add: ex_defs eval_defs)
  have l: "list_item (cache_manager_list ex_ring_a) (idx ex_ring_a) = Inr ()"
    by (simp add: ex_defs eval_defs)
  have h: "HeadMicroBatchDescription_init ex_init_from_batch ex_inputs
     (max_input_len ex_ring_a) (max_output_len ex_ring_a) () = Inr ex_head"
    by (simp add: ex_defs eval_defs)
  have s: "stage ex_ring_a = 0" by (simp add: ex_defs)
  from add_description_replaces [OF c l, of ex_init_from_batch ex_inputs] s h
  have "add_description ex_init_from_batch ex_ring_a ex_inputs =
      Inr (ex_ring_a\<lparr>mb_description_buffer :=
             AList.update (idx ex_ring_a) (Head ex_head) (mb_description_buffer ex_ring_a)\<rparr>)"
    by blast
  then have "add_description ex_init_from_batch ex_ring_a ex_inputs = Inr ex_ring"
    by (simp add: ex_defs)
  with c l s h show ?thesis by simp
qed

text \<open>
  The claim as the specification states it fails: the position 0 holds a description that
  has generated one of its two tokens, and \<^verbatim>\<open>add_description\<close> returns and leaves a fresh
  description there.
\<close>

theorem add_description_occupied_counterexample:
  "cur_description ex_ring_a = Some (Head ex_head_a) \<and>
   add_description ex_init_from_batch ex_ring_a ex_inputs = Inr ex_ring \<and>
   cur_description ex_ring = Some (Head ex_head) \<and>
   Head ex_head \<noteq> Head ex_head_a"
  by (simp add: ex_defs eval_defs add_description_def)

subsection \<open>export_new_tokens\<close>

lemma export_loop_eq:
  "export_loop ds acc =
     (if list_all has_tokens ds then Inr (acc @ concat (map rows_of ds)) else Inl AttributeError)"
proof (induction ds arbitrary: acc)
  case Nil
  then show ?case by simp
next
  case (Cons d ds)
  show ?case
  proof (cases d)
    case (Head h)
    show ?thesis
    proof (cases "new_tokens h")
      case None
      with Head show ?thesis by (simp add: has_tokens_def)
    next
      case (Some t)
      have "has_tokens d" and "rows_of d = t"
        using Head Some by (simp_all add: has_tokens_def rows_of_def)
      then show ?thesis
        using Head Some Cons.IH [of "acc @ t"] by simp
    qed
  next
    case (Body b)
    then show ?thesis by (simp add: has_tokens_def)
  qed
qed

lemma add_description_body_only:
  assumes "stage self \<noteq> 0" and "body_only self" and "add_description ifb self inputs_dict = Inr self'"
  shows "stage self' \<noteq> 0 \<and> body_only self'"
proof -
  have upd: "list_all P (map snd (AList.update k v al))" if "list_all P (map snd al)" "P v"
    for P :: "description \<Rightarrow> bool" and k :: int and v al
    using that by (induction al) auto
  from assms show ?thesis
    by (auto simp: add_description_def body_only_def dict_values_def upd split: sum.splits)
qed

lemma step_body_only:
  assumes "stage self \<noteq> 0" and "body_only self" and "step self new_token = Inr (s, self')"
  shows "stage self' \<noteq> 0 \<and> body_only self'"
proof -
  have upd: "list_all P (map snd (AList.update k v al))" if "list_all P (map snd al)" "P v"
    for P :: "description \<Rightarrow> bool" and k :: int and v al
    using that by (induction al) auto
  from assms(3) obtain d d' where d: "cur_description self = Some d"
    and u: "description_update d new_token = Inr d'"
    and self': "self' = self\<lparr>mb_description_buffer :=
                   AList.update (idx self) d' (mb_description_buffer self)\<rparr>"
    by (auto simp: step_def Let_def split: option.splits sum.splits)
  from d have "d \<in> set (map snd (mb_description_buffer self))"
    by (auto simp: cur_description_def dest!: map_of_SomeD intro: rev_image_eqI)
  with assms(2) have "case d of Head h \<Rightarrow> False | Body b \<Rightarrow> True"
    by (auto simp: body_only_def dict_values_def list_all_iff)
  then obtain b where "d = Body b"
    by (cases d) simp_all
  with u have "d' = Body b" by auto
  with assms(1,2) self' show ?thesis
    by (simp add: body_only_def dict_values_def upd)
qed

text \<open>
  C3, as the code has it. Take a manager of a later stage (\<^verbatim>\<open>stage\<close> is not 0) whose
  descriptions are all of the class \<^verbatim>\<open>BodyMicroBatchDescription\<close>, which is what
  \<^verbatim>\<open>add_description\<close> and \<^verbatim>\<open>step\<close> keep true on such a manager. \<^verbatim>\<open>export_new_tokens\<close> raises
  (\<^verbatim>\<open>AttributeError\<close>: the description has no \<^verbatim>\<open>new_tokens\<close>) when the dictionary holds a
  description, and returns the empty list when it holds none.
\<close>

theorem export_new_tokens_body:
  assumes "stage self \<noteq> 0" and "body_only self"
  shows "export_new_tokens self =
           (if mb_description_buffer self = [] then Inr [] else Inl AttributeError)"
proof (cases "mb_description_buffer self")
  case Nil
  then show ?thesis by (simp add: export_new_tokens_def dict_values_def)
next
  case (Cons p ps)
  with assms(2) obtain b where "snd p = Body b"
    by (cases "snd p") (auto simp: body_only_def dict_values_def)
  with Cons show ?thesis
    by (simp add: export_new_tokens_def dict_values_def)
qed

theorem export_new_tokens_body_witness:
  "stage ex_body_ring \<noteq> 0 \<and> body_only ex_body_ring \<and>
   export_new_tokens ex_body_ring = Inl AttributeError"
  using export_new_tokens_body [of ex_body_ring]
  by (simp add: ex2_defs body_only_def dict_values_def MicroBatchManager_init_def)

text \<open>
  The claim as the specification states it fails on a manager of a later stage that holds
  no description: the loop does not run and the call returns the empty list.
\<close>

theorem export_new_tokens_body_empty_counterexample:
  "stage ex_body_manager \<noteq> 0 \<and> export_new_tokens ex_body_manager = Inr []"
  by (simp add: ex2_defs MicroBatchManager_init_def export_new_tokens_def dict_values_def)

lemma map2_append_nth:
  "length a = n \<Longrightarrow> length t = n \<Longrightarrow> map2 (@) a t = map (\<lambda>r. a ! r @ t ! r) [0..<n]"
  by (rule nth_equalityI) simp_all

lemma updates_new_tokens_Some:
  "0 < n \<Longrightarrow> \<forall>t\<in>set toks. token_column n t \<Longrightarrow> new_tokens self = Some a \<Longrightarrow> length a = n \<Longrightarrow>
   updates self (map Some toks) = Inr self' \<Longrightarrow>
   new_tokens self' = Some (map (\<lambda>r. a ! r @ concat (map (\<lambda>t. t ! r) toks)) [0..<n])"
proof (induction toks arbitrary: self a)
  case Nil
  have "map ((!) a) [0..<length a] = a" by (rule map_nth)
  with Nil show ?case by auto
next
  case (Cons t toks)
  from Cons.prems(5) obtain self1 where
    u: "Head_update self (Some t) = Inr self1" and r: "updates self1 (map Some toks) = Inr self'"
    by (auto split: sum.splits)
  have lt: "length t = n" using Cons.prems(2) by (simp add: token_column_def)
  from Head_update_Some [OF u] Cons.prems(3)
  have n1: "new_tokens self1 = Some (map2 (@) a t)" by auto
  have l1: "length (map2 (@) a t) = n" using lt Cons.prems(4) by simp
  have "new_tokens self' =
      Some (map (\<lambda>r. map2 (@) a t ! r @ concat (map (\<lambda>t. t ! r) toks)) [0..<n])"
    using Cons.IH [OF Cons.prems(1) _ n1 l1 r] Cons.prems(2) by simp
  moreover have "map (\<lambda>r. map2 (@) a t ! r @ concat (map (\<lambda>t. t ! r) toks)) [0..<n]
      = map (\<lambda>r. a ! r @ concat (map (\<lambda>t. t ! r) (t # toks))) [0..<n]"
    using lt Cons.prems(4) by (intro map_cong) simp_all
  ultimately show ?case by simp
qed

lemma updates_new_tokens_fresh:
  assumes "0 < n" and "\<forall>t\<in>set toks. token_column n t" and "toks \<noteq> []"
    and "new_tokens self = None" and "updates self (map Some toks) = Inr self'"
  shows "new_tokens self' = Some (map (\<lambda>r. concat (map (\<lambda>t. t ! r) toks)) [0..<n])"
proof -
  from assms(3) obtain t rest where toks: "toks = t # rest" by (cases toks) auto
  from assms(5) toks obtain self1 where
    u: "Head_update self (Some t) = Inr self1" and r: "updates self1 (map Some rest) = Inr self'"
    by (auto split: sum.splits)
  have lt: "length t = n" using assms(2) toks by (simp add: token_column_def)
  from Head_update_Some [OF u] assms(4)
  have n1: "new_tokens self1 = Some t" by auto
  from updates_new_tokens_Some [OF assms(1) _ n1 lt r] assms(2) toks
  show ?thesis by simp
qed

text \<open>
  C8, as the code has it. \<^verbatim>\<open>export_new_tokens\<close> visits the descriptions in the order of the
  dictionary. When every description is of the first stage and has received a token, it
  returns one list of rows: the rows of the first description visited, then the rows of
  the next, and so on, so the outer index counts rows across the descriptions and the inner
  index counts tokens. When some description has no token yet (or is of a later stage) it
  raises \<^verbatim>\<open>AttributeError\<close>. The row \<open>r\<close> of a description that was created and then received
  token columns holds the tokens of row \<open>r\<close> in the order of the calls.
\<close>

theorem export_new_tokens_rows:
  "(list_all has_tokens (dict_values (mb_description_buffer self)) \<longrightarrow>
      export_new_tokens self =
        Inr (concat (map rows_of (dict_values (mb_description_buffer self))))) \<and>
   (\<not> list_all has_tokens (dict_values (mb_description_buffer self)) \<longrightarrow>
      export_new_tokens self = Inl AttributeError) \<and>
   (\<forall>n toks h h'.
      0 < n \<and> toks \<noteq> [] \<and> (\<forall>t\<in>set toks. token_column n t) \<and> new_tokens h = None \<and>
      updates h (map Some toks) = Inr h' \<longrightarrow>
      rows_of (Head h') = map (\<lambda>r. concat (map (\<lambda>t. t ! r) toks)) [0..<n])"
proof (intro conjI impI allI)
  assume "list_all has_tokens (dict_values (mb_description_buffer self))"
  then show "export_new_tokens self =
      Inr (concat (map rows_of (dict_values (mb_description_buffer self))))"
    by (simp add: export_new_tokens_def export_loop_eq)
next
  assume "\<not> list_all has_tokens (dict_values (mb_description_buffer self))"
  then show "export_new_tokens self = Inl AttributeError"
    by (simp add: export_new_tokens_def export_loop_eq)
next
  fix n toks h h'
  assume "0 < n \<and> toks \<noteq> [] \<and> (\<forall>t\<in>set toks. token_column n t) \<and> new_tokens h = None \<and>
      updates h (map Some toks) = Inr h'"
  then have "new_tokens h' = Some (map (\<lambda>r. concat (map (\<lambda>t. t ! r) toks)) [0..<n])"
    using updates_new_tokens_fresh [of n toks h h'] by blast
  then show "rows_of (Head h') = map (\<lambda>r. concat (map (\<lambda>t. t ! r) toks)) [0..<n]"
    by (simp add: rows_of_def)
qed

theorem export_new_tokens_rows_witness:
  "list_all has_tokens (dict_values (mb_description_buffer ex_ring2)) \<and>
   export_new_tokens ex_ring2 = Inr [[1, 2], [3, 4], [5, 6], [7, 8]] \<and>
   \<not> list_all has_tokens (dict_values (mb_description_buffer ex_ring)) \<and>
   export_new_tokens ex_ring = Inl AttributeError \<and>
   (0::nat) < 1 \<and> [[[7]], [[8::int]]] \<noteq> [] \<and> token_column 1 [[7]] \<and> token_column 1 [[8]] \<and>
   new_tokens ex_head = None \<and> updates ex_head (map Some [[[7]], [[8]]]) = Inr ex_head_ab \<and>
   rows_of (Head ex_head_ab) = [[7, 8]]"
proof -
  have a: "list_all has_tokens (dict_values (mb_description_buffer ex_ring2))"
    by (simp add: ex2_defs has_tokens_def dict_values_def)
  have b: "\<not> list_all has_tokens (dict_values (mb_description_buffer ex_ring))"
    by (simp add: ex_defs has_tokens_def dict_values_def)
  have c: "(0::nat) < 1 \<and> [[[7]], [[8::int]]] \<noteq> [] \<and> (\<forall>t\<in>set [[[7]], [[8]]]. token_column 1 t) \<and>
      new_tokens ex_head = None \<and> updates ex_head (map Some [[[7]], [[8]]]) = Inr ex_head_ab"
    by (simp add: ex_defs eval_defs token_column_def)
  from export_new_tokens_rows [of ex_ring2] a
  have 1: "export_new_tokens ex_ring2 = Inr [[1, 2], [3, 4], [5, 6], [7, 8]]"
    by (simp add: ex2_defs rows_of_def dict_values_def)
  from export_new_tokens_rows [of ex_ring] b
  have 2: "export_new_tokens ex_ring = Inl AttributeError" by blast
  have 3: "rows_of (Head ex_head_ab) = [[7, 8]]"
    by (simp add: rows_of_def ex_defs)
  from a b c 1 2 3 show ?thesis by simp
qed

text \<open>
  The claim as the specification states it fails: with two positions of two rows each,
  the result has four elements, and the element of index 1 is the second row of position
  0, not the rows of position 1.
\<close>

theorem export_new_tokens_nesting_counterexample:
  "stage ex_ring2 = 0 \<and>
   map_of (mb_description_buffer ex_ring2) 0 = Some (Head ex_rows0) \<and>
   map_of (mb_description_buffer ex_ring2) 1 = Some (Head ex_rows1) \<and>
   new_tokens ex_rows1 = Some [[5, 6], [7, 8]] \<and>
   export_new_tokens ex_ring2 = Inr [[1, 2], [3, 4], [5, 6], [7, 8]] \<and>
   [[1, 2], [3, 4], [5, 6], [7, 8]] ! 1 = [3, 4 :: int] \<and>
   length [[1, 2], [3, 4], [5, 6], [7, 8 :: int]] \<noteq> length (mb_description_buffer ex_ring2)"
  by (simp add: ex2_defs MicroBatchManager_init_def export_new_tokens_def dict_values_def)

text \<open>
  The manager of the example is reached by calls of the methods. And the order of the
  dictionary is the order in which the positions were first filled: a caller that fills
  position 1 before position 0 gets the rows of position 1 first.
\<close>

lemma ex_ring2_reached:
  "(case add_description ex_init_from_batch ex_manager2 ex_inputs2 of Inl e \<Rightarrow> None | Inr m1 \<Rightarrow>
    (case step m1 (Some [[1], [3]]) of Inl e \<Rightarrow> None | Inr (s2, m2) \<Rightarrow>
    (case step m2 (Some [[2], [4]]) of Inl e \<Rightarrow> None | Inr (s3, m3) \<Rightarrow>
    (case next_idx m3 of Inl e \<Rightarrow> None | Inr m4 \<Rightarrow>
    (case add_description ex_init_from_batch m4 ex_inputs2 of Inl e \<Rightarrow> None | Inr m5 \<Rightarrow>
    (case step m5 (Some [[5], [7]]) of Inl e \<Rightarrow> None | Inr (s6, m6) \<Rightarrow>
    (case step m6 (Some [[6], [8]]) of Inl e \<Rightarrow> None | Inr (s7, m7) \<Rightarrow> Some m7)))))))
   = Some ex_ring2"
  by (simp add: ex2_defs ex_init_from_batch_def
      MicroBatchManager_init_def eval_defs add_description_def step_def next_idx_def Let_def)

lemma export_follows_insertion_order:
  "(case next_idx ex_manager2 of Inl e \<Rightarrow> None | Inr m1 \<Rightarrow>
    (case add_description ex_init_from_batch m1 ex_inputs2 of Inl e \<Rightarrow> None | Inr m2 \<Rightarrow>
    (case step m2 (Some [[5], [7]]) of Inl e \<Rightarrow> None | Inr (s3, m3) \<Rightarrow>
    (case next_idx m3 of Inl e \<Rightarrow> None | Inr m4 \<Rightarrow>
    (case add_description ex_init_from_batch m4 ex_inputs2 of Inl e \<Rightarrow> None | Inr m5 \<Rightarrow>
    (case step m5 (Some [[1], [3]]) of Inl e \<Rightarrow> None | Inr (s6, m6) \<Rightarrow>
       Some (map fst (mb_description_buffer m6), export_new_tokens m6)))))))
   = Some ([1, 0], Inr [[5], [7], [1], [3]])"
  by (simp add: ex2_defs ex_init_from_batch_def
      MicroBatchManager_init_def eval_defs add_description_def step_def next_idx_def Let_def
      export_new_tokens_def)

end
